theory Spec2Isabelle
  imports Complex_Main "HOL-Library.AList"
begin

section \<open>Data model of \<open>infostop/detect.py\<close>\<close>

text \<open>
  The module has two functions, \<open>best_partition\<close> and \<open>run_infomap\<close>. Both work on
  numpy arrays, Python lists, a Python dict and a Python set. Exceptions are values of
  \<open>py_error\<close>; a function that can raise returns \<open>py_error + 'a\<close> with the exception on the
  left.
\<close>

datatype py_error =
    AssertionError string
  | Exception string
  | ValueError
  | IndexError

text \<open>
  A two-dimensional numpy array of numbers: \<open>shape1\<close> is \<open>a.shape[1]\<close> and \<open>rows\<close> holds
  the \<open>a.shape[0]\<close> rows. The number of columns is a field of its own because an array
  with no rows still has one. Array entries are real numbers here; the one place where the
  source creates the float NaN itself (the matrix \<open>D\<close>) has its own type \<open>float\<close>.
\<close>

record ndarray =
  shape1 :: nat
  rows :: "real list list"

definition column :: "ndarray \<Rightarrow> nat \<Rightarrow> real list" where
  \<comment> \<open>\<open>a[:, k]\<close>\<close>
  "column a k = map (\<lambda>r. r ! k) (rows a)"

datatype float = NaN | Val real

definition float_less :: "float \<Rightarrow> real \<Rightarrow> bool" where
  \<comment> \<open>\<open>x < r\<close> on floats: every comparison with NaN is false\<close>
  "float_less x r = (case x of NaN \<Rightarrow> False | Val v \<Rightarrow> v < r)"

text \<open>
  The argument \<open>distance_function\<close> is a Python callable, compared by identity with
  \<open>utils.haversine\<close> (line 64). It is a tag here, so that a caller's own function is never
  identified with the module's.
\<close>

datatype distance_function =
    Haversine
  | Euclidean
  | Custom "real list \<Rightarrow> real list \<Rightarrow> real"

text \<open>The value returned: an array of labels, or whatever \<open>utils.compute_intervals\<close> gives.\<close>

datatype 'iv result = LabelArray "int list" | Intervals 'iv

subsection \<open>The collaborators\<close>

text \<open>
  The module \<open>infostop.utils\<close> is imported by \<open>detect.py\<close> and is not part of the verified
  file. Its functions are parameters, collected in a record; they are taken to be pure and
  to return. \<open>'g\<close> is the type of the segmentation result and \<open>'iv\<close> that of the interval
  sequence. The last field is the order in which the Python runtime iterates over a set of
  integers, which the language leaves open.
\<close>

record ('g, 'iv) utils =
  haversine :: "real list \<Rightarrow> real list \<Rightarrow> real"
  euclidean :: "real list \<Rightarrow> real list \<Rightarrow> real"
  group_time_distance ::
    "ndarray \<Rightarrow> real \<Rightarrow> real \<Rightarrow> real \<Rightarrow> (real list \<Rightarrow> real list \<Rightarrow> real) \<Rightarrow> 'g"
  get_stationary_events :: "'g \<Rightarrow> int \<Rightarrow> ndarray \<times> int list"
  infomap_communities :: "nat list \<Rightarrow> (nat \<times> nat) list \<Rightarrow> (nat \<times> int) list"
  compute_intervals :: "ndarray \<Rightarrow> int list \<Rightarrow> real \<Rightarrow> 'iv"
  set_iteration :: "nat set \<Rightarrow> nat list"

definition is_haversine :: "distance_function \<Rightarrow> bool" where
  \<comment> \<open>\<open>distance_function == utils.haversine\<close>\<close>
  "is_haversine df = (case df of Haversine \<Rightarrow> True | Euclidean \<Rightarrow> False | Custom f \<Rightarrow> False)"

definition metric ::
  "('g, 'iv) utils \<Rightarrow> distance_function \<Rightarrow> real list \<Rightarrow> real list \<Rightarrow> real" where
  "metric U df = (case df of Haversine \<Rightarrow> haversine U | Euclidean \<Rightarrow> euclidean U | Custom f \<Rightarrow> f)"

definition triu_indices :: "nat \<Rightarrow> (nat \<times> nat) list" where
  \<comment> \<open>\<open>np.triu_indices(c, 1)\<close>: the positions above the diagonal, row by row\<close>
  "triu_indices c = concat (map (\<lambda>i. map (\<lambda>j. (i, j)) [Suc i..<c]) [0..<c])"

text \<open>
  Modelled from the spec: \<open>utils.general_pdist\<close> is not in the verified file. Section 4.3
  of the specification has it compute the \<open>C(C-1)/2\<close> pairwise distances between the event
  representatives, upper-triangular only, the distance of an event to itself never
  computed. The order is the one of \<open>np.triu_indices\<close>, which line 107 relies on.
\<close>

definition general_pdist :: "ndarray \<Rightarrow> (real list \<Rightarrow> real list \<Rightarrow> real) \<Rightarrow> real list" where
  "general_pdist X f =
     concat (map (\<lambda>i. map (\<lambda>j. f (rows X ! i) (rows X ! j)) [Suc i..<length (rows X)])
                 [0..<length (rows X)])"

subsection \<open>numpy and Python primitives\<close>

definition np_min :: "real list \<Rightarrow> py_error + real" where
  \<comment> \<open>\<open>np.min\<close> of a zero-size array raises ValueError\<close>
  "np_min xs = (case xs of [] \<Rightarrow> Inl ValueError | x # ys \<Rightarrow> Inr (fold min ys x))"

definition np_max :: "real list \<Rightarrow> py_error + real" where
  "np_max xs = (case xs of [] \<Rightarrow> Inl ValueError | x # ys \<Rightarrow> Inr (fold max ys x))"

definition py_max :: "int list \<Rightarrow> py_error + int" where
  \<comment> \<open>\<open>max\<close> of an empty sequence raises ValueError\<close>
  "py_max xs = (case xs of [] \<Rightarrow> Inl ValueError | x # ys \<Rightarrow> Inr (fold max ys x))"

definition set_item :: "float list list \<Rightarrow> nat \<times> nat \<Rightarrow> float \<Rightarrow> float list list" where
  \<comment> \<open>\<open>D[i, j] = v\<close>\<close>
  "set_item D p v = D[fst p := (D ! fst p)[snd p := v]]"

definition assign_triu :: "nat \<Rightarrow> real list \<Rightarrow> py_error + float list list" where
  \<comment> \<open>lines 106 and 107; numpy broadcasts a vector of length one and refuses any other
      length that differs from the number of positions\<close>
  "assign_triu c pairwise_dist =
     (let D = replicate c (replicate c NaN);
          idx = triu_indices c
      in if length pairwise_dist = length idx
         then Inr (fold (\<lambda>(p, v) M. set_item M p (Val v)) (zip idx pairwise_dist) D)
         else if length pairwise_dist = 1
         then Inr (fold (\<lambda>p M. set_item M p (Val (hd pairwise_dist))) idx D)
         else Inl ValueError)"

definition where_less :: "float list list \<Rightarrow> real \<Rightarrow> (nat \<times> nat) list" where
  \<comment> \<open>\<open>np.column_stack(np.where(D < r))\<close>: the positions where the test holds, row by row\<close>
  "where_less D r =
     concat (map (\<lambda>i. map (\<lambda>j. (i, j)) (filter (\<lambda>j. float_less (D ! i ! j) r) [0..<length (D ! i)]))
                 [0..<length D])"

definition flatten :: "(nat \<times> nat) list \<Rightarrow> nat list" where
  "flatten es = concat (map (\<lambda>(i, j). [i, j]) es)"

definition np_unique :: "nat list \<Rightarrow> nat list" where
  "np_unique xs = sort (remdups xs)"

definition dict_update :: "('k \<times> 'v) list \<Rightarrow> ('k \<times> 'v) list \<Rightarrow> ('k \<times> 'v) list" where
  \<comment> \<open>\<open>d.update(e)\<close> on dicts kept as association lists in insertion order\<close>
  "dict_update d e = fold (\<lambda>(k, v). AList.update k v) e d"

definition py_getitem :: "'a list \<Rightarrow> int \<Rightarrow> py_error + 'a" where
  \<comment> \<open>\<open>xs[i]\<close> on a Python list: a negative index counts from the end\<close>
  "py_getitem xs i =
     (if 0 \<le> i \<and> i < int (length xs) then Inr (xs ! nat i)
      else if i < 0 \<and> - int (length xs) \<le> i then Inr (xs ! nat (int (length xs) + i))
      else Inl IndexError)"

fun gather :: "'a list \<Rightarrow> int list \<Rightarrow> py_error + 'a list" where
  \<comment> \<open>\<open>[xs[i] for i in idx]\<close>\<close>
  "gather xs [] = Inr []"
| "gather xs (i # idx) =
     (case py_getitem xs i of
        Inl e \<Rightarrow> Inl e
      | Inr x \<Rightarrow> (case gather xs idx of Inl e \<Rightarrow> Inl e | Inr ys \<Rightarrow> Inr (x # ys)))"

definition hstack_times :: "ndarray \<Rightarrow> ndarray" where
  \<comment> \<open>lines 149 and 150: a new array, the old rows with the row number appended\<close>
  "hstack_times a =
     \<lparr>shape1 = shape1 a + 1,
      rows = map (\<lambda>(r, t). r @ [real t]) (zip (rows a) [0..<length (rows a)])\<rparr>"

section \<open>\<open>run_infomap\<close>\<close>

definition build_edges :: "real \<Rightarrow> nat \<Rightarrow> real list \<Rightarrow> py_error + (nat \<times> nat) list" where
  \<comment> \<open>lines 106 to 109\<close>
  "build_edges r2 c pairwise_dist =
     (case assign_triu c pairwise_dist of
        Inl e \<Rightarrow> Inl e
      | Inr D \<Rightarrow> Inr (where_less D r2))"

definition label_singletons ::
  "('g, 'iv) utils \<Rightarrow> (nat \<times> int) list \<Rightarrow> nat set \<Rightarrow> py_error + (nat \<times> int) list" where
  \<comment> \<open>lines 125 to 129\<close>
  "label_singletons U part singleton_nodes =
     (case py_max (map snd part) of
        Inl e \<Rightarrow> Inl e
      | Inr max_label \<Rightarrow>
          Inr (dict_update part
                 (zip (set_iteration U singleton_nodes)
                      (map (\<lambda>k. max_label + 1 + int k) [0..<card singleton_nodes]))))"

definition event_labels :: "(nat \<times> int) list \<Rightarrow> nat \<Rightarrow> int list" where
  \<comment> \<open>lines 132 to 135\<close>
  "event_labels part c =
     map (\<lambda>n. case map_of part n of Some l \<Rightarrow> l | None \<Rightarrow> - 1) [0..<c]"

definition no_edge_message :: string where
  "no_edge_message =
     ''Found only 1 edge. Provide longer trajectory or increase '' @ [CHR 0x60] @ ''r2''
       @ [CHR 0x60] @ ''.''"

definition run_infomap ::
  "('g, 'iv) utils \<Rightarrow> real \<Rightarrow> ndarray \<Rightarrow> ndarray \<Rightarrow> distance_function \<Rightarrow> int list \<Rightarrow>
     bool \<Rightarrow> bool \<Rightarrow> bool \<Rightarrow> real \<Rightarrow> py_error + 'iv result" where
  "run_infomap U r2 coords stop_events df event_map label_singleton return_medoid_labels
       return_intervals max_time_between =
     (let pairwise_dist = general_pdist stop_events (metric U df);
          c = length (rows stop_events)
      in case build_edges r2 c pairwise_dist of
           Inl e \<Rightarrow> Inl e
         | Inr edges \<Rightarrow>
             (let nodes = np_unique (flatten edges);
                  singleton_nodes = set [0..<c] - set nodes
              in if length edges < 1 then Inl (Exception no_edge_message)
                 else
                   (case (if label_singleton
                          then label_singletons U (infomap_communities U nodes edges) singleton_nodes
                          else Inr (infomap_communities U nodes edges)) of
                      Inl e \<Rightarrow> Inl e
                    | Inr part \<Rightarrow>
                        (let labels = event_labels part c
                         in if return_medoid_labels then Inr (LabelArray labels)
                            else
                              (case gather (labels @ [- 1]) event_map of
                                 Inl e \<Rightarrow> Inl e
                               | Inr coord_labels \<Rightarrow>
                                   if return_intervals
                                   then Inr (Intervals
                                          (compute_intervals U
                                             (if shape1 coords = 2 then hstack_times coords else coords)
                                             coord_labels max_time_between))
                                   else Inr (LabelArray coord_labels))))))"

section \<open>\<open>best_partition\<close>\<close>

definition nondecreasing :: "real list \<Rightarrow> bool" where
  \<comment> \<open>\<open>np.all(t[:-1] <= t[1:])\<close>\<close>
  "nondecreasing ts = list_all (\<lambda>(a, b). a \<le> b) (zip (butlast ts) (tl ts))"

definition assert_bounds :: "real list \<Rightarrow> real \<Rightarrow> real \<Rightarrow> string \<Rightarrow> py_error option" where
  \<comment> \<open>one of the two \<open>try\<close> blocks of lines 65 to 74; only AssertionError is caught there\<close>
  "assert_bounds col lo hi msg =
     (case np_min col of
        Inl e \<Rightarrow> Some e
      | Inr mn \<Rightarrow>
          if \<not> mn > lo then Some (AssertionError msg)
          else (case np_max col of
                  Inl e \<Rightarrow> Some e
                | Inr mx \<Rightarrow> if \<not> mx < hi then Some (AssertionError msg) else None))"

definition assertions :: "ndarray \<Rightarrow> distance_function \<Rightarrow> py_error option" where
  \<comment> \<open>lines 54 to 74: the exception raised, if any\<close>
  "assertions coords df =
     (if \<not> (shape1 coords = 2 \<or> shape1 coords = 3)
      then Some (AssertionError ''Number of columns must be 2 or 3'')
      else if shape1 coords = 3 \<and> \<not> nondecreasing (column coords 2)
      then Some (AssertionError ''Timestamps must be ordered'')
      else if is_haversine df
      then (case assert_bounds (column coords 0) (- 90) 90
                   ''Column 0 (latitude) must have values between -90 and 90'' of
              Some e \<Rightarrow> Some e
            | None \<Rightarrow>
                assert_bounds (column coords 1) (- 180) 180
                  ''Column 1 (longitude) must have values between -180 and 180'')
      else None)"

definition preprocess ::
  "('g, 'iv) utils \<Rightarrow> ndarray \<Rightarrow> real \<Rightarrow> real \<Rightarrow> real \<Rightarrow> distance_function \<Rightarrow> int \<Rightarrow>
     ndarray \<times> int list" where
  \<comment> \<open>lines 80 to 83: the event representatives and the event map\<close>
  "preprocess U coords r1 min_staying_time max_time_between df min_size =
     (let groups = group_time_distance U coords r1 min_staying_time max_time_between
                     (metric U df)
      in get_stationary_events U groups min_size)"

definition best_partition ::
  "('g, 'iv) utils \<Rightarrow> ndarray \<Rightarrow> real \<Rightarrow> real \<Rightarrow> bool \<Rightarrow> bool \<Rightarrow> real \<Rightarrow> real \<Rightarrow>
     distance_function \<Rightarrow> bool \<Rightarrow> int \<Rightarrow> py_error + 'iv result" where
  "best_partition U coords r1 r2 return_medoid_labels label_singleton min_staying_time
       max_time_between df return_intervals min_size =
     (case assertions coords df of
        Some e \<Rightarrow> Inl e
      | None \<Rightarrow>
          (let (stop_events, event_map) =
                 preprocess U coords r1 min_staying_time max_time_between df min_size
           in run_infomap U r2 coords stop_events df event_map label_singleton
                return_medoid_labels return_intervals max_time_between))"

section \<open>The same two functions with the arrays in a store\<close>

text \<open>
  To say what a call does to the caller's array, \<open>coords\<close> is here a reference into a store
  of arrays and the functions return the store they leave behind. The source reads the
  array (\<open>coords.shape[1]\<close>, \<open>len(coords)\<close>, the arguments of the collaborators),
  allocates a new one with \<open>np.hstack\<close> on line 150 and rebinds its local name to it; it
  has no assignment into \<open>coords\<close>. The collaborators read the arrays they are given.
\<close>

type_synonym heap = "ndarray list"

definition alloc :: "heap \<Rightarrow> ndarray \<Rightarrow> nat \<times> heap" where
  "alloc h a = (length h, h @ [a])"

definition run_infomap_st ::
  "('g, 'iv) utils \<Rightarrow> heap \<Rightarrow> real \<Rightarrow> nat \<Rightarrow> ndarray \<Rightarrow> distance_function \<Rightarrow> int list \<Rightarrow>
     bool \<Rightarrow> bool \<Rightarrow> bool \<Rightarrow> real \<Rightarrow> (py_error + 'iv result) \<times> heap" where
  "run_infomap_st U h r2 coords stop_events df event_map label_singleton return_medoid_labels
       return_intervals max_time_between =
     (let pairwise_dist = general_pdist stop_events (metric U df);
          c = length (rows stop_events)
      in case build_edges r2 c pairwise_dist of
           Inl e \<Rightarrow> (Inl e, h)
         | Inr edges \<Rightarrow>
             (let nodes = np_unique (flatten edges);
                  singleton_nodes = set [0..<c] - set nodes
              in if length edges < 1 then (Inl (Exception no_edge_message), h)
                 else
                   (case (if label_singleton
                          then label_singletons U (infomap_communities U nodes edges) singleton_nodes
                          else Inr (infomap_communities U nodes edges)) of
                      Inl e \<Rightarrow> (Inl e, h)
                    | Inr part \<Rightarrow>
                        (let labels = event_labels part c
                         in if return_medoid_labels then (Inr (LabelArray labels), h)
                            else
                              (case gather (labels @ [- 1]) event_map of
                                 Inl e \<Rightarrow> (Inl e, h)
                               | Inr coord_labels \<Rightarrow>
                                   if return_intervals
                                   then
                                     (if shape1 (h ! coords) = 2
                                      then
                                        (let (coords', h') = alloc h (hstack_times (h ! coords))
                                         in (Inr (Intervals
                                               (compute_intervals U (h' ! coords') coord_labels
                                                  max_time_between)), h'))
                                      else
                                        (Inr (Intervals
                                           (compute_intervals U (h ! coords) coord_labels
                                              max_time_between)), h))
                                   else (Inr (LabelArray coord_labels), h))))))"

definition best_partition_st ::
  "('g, 'iv) utils \<Rightarrow> heap \<Rightarrow> nat \<Rightarrow> real \<Rightarrow> real \<Rightarrow> bool \<Rightarrow> bool \<Rightarrow> real \<Rightarrow> real \<Rightarrow>
     distance_function \<Rightarrow> bool \<Rightarrow> int \<Rightarrow> (py_error + 'iv result) \<times> heap" where
  "best_partition_st U h coords r1 r2 return_medoid_labels label_singleton min_staying_time
       max_time_between df return_intervals min_size =
     (case assertions (h ! coords) df of
        Some e \<Rightarrow> (Inl e, h)
      | None \<Rightarrow>
          (let (stop_events, event_map) =
                 preprocess U (h ! coords) r1 min_staying_time max_time_between df min_size
           in run_infomap_st U h r2 coords stop_events df event_map label_singleton
                return_medoid_labels return_intervals max_time_between))"

section \<open>Notions used to state the properties\<close>

definition near_pairs ::
  "(real list \<Rightarrow> real list \<Rightarrow> real) \<Rightarrow> real \<Rightarrow> ndarray \<Rightarrow> (nat \<times> nat) list" where
  \<comment> \<open>the pairs \<open>i < j\<close> of events whose representatives are closer than \<open>r\<close>, row by row\<close>
  "near_pairs d r X =
     filter (\<lambda>(i, j). d (rows X ! i) (rows X ! j) < r) (triu_indices (length (rows X)))"

definition graph_nodes :: "(nat \<times> nat) list \<Rightarrow> nat list" where
  \<comment> \<open>line 110\<close>
  "graph_nodes es = np_unique (flatten es)"

definition singletons :: "nat \<Rightarrow> (nat \<times> nat) list \<Rightarrow> nat set" where
  \<comment> \<open>line 112\<close>
  "singletons c es = set [0..<c] - set (graph_nodes es)"

definition community_map ::
  "('g, 'iv) utils \<Rightarrow> nat \<Rightarrow> (nat \<times> nat) list \<Rightarrow> bool \<Rightarrow> py_error + (nat \<times> int) list" where
  \<comment> \<open>lines 122 to 129: the dict \<open>partition\<close> after the singleton policy\<close>
  "community_map U c es label_singleton =
     (if label_singleton
      then label_singletons U (infomap_communities U (graph_nodes es) es) (singletons c es)
      else Inr (infomap_communities U (graph_nodes es) es))"

definition dist_matrix :: "ndarray \<Rightarrow> (real list \<Rightarrow> real list \<Rightarrow> real) \<Rightarrow> float list list" where
  \<comment> \<open>the matrix \<open>D\<close> of line 107 when \<open>pairwise_dist\<close> is the vector of line 94\<close>
  "dist_matrix X f =
     fold (\<lambda>p M. set_item M p (Val (f (rows X ! fst p) (rows X ! snd p))))
       (triu_indices (length (rows X)))
       (replicate (length (rows X)) (replicate (length (rows X)) NaN))"

definition fresh_ids :: "(nat \<times> int) list \<Rightarrow> nat list \<Rightarrow> (nat \<times> int) list" where
  \<comment> \<open>the argument of \<open>update\<close> on lines 126 to 129 when the set is iterated as \<open>order\<close>\<close>
  "fresh_ids P0 order = zip order (map (\<lambda>k. Max (snd ` set P0) + 1 + int k) [0..<length order])"

definition ids_in_index_order :: "(nat \<times> int) list \<Rightarrow> nat set \<Rightarrow> (nat \<times> int) list \<Rightarrow> bool" where
  \<comment> \<open>the specification's wording: the fresh ids are handed out in event-index order\<close>
  "ids_in_index_order P0 S P =
     list_all (\<lambda>k. map_of P (sorted_list_of_set S ! k) = Some (Max (snd ` set P0) + 1 + int k))
       [0..<card S]"

subsection \<open>A small trajectory\<close>

text \<open>
  Seven samples; three stationary events, the first two 10 apart and the third far away;
  the fifth sample belongs to no event. The collaborators are stand-ins that return this
  segmentation, put every connected node in community 0 and return the arguments of the
  interval aggregation unchanged.
\<close>

definition line_dist :: "real list \<Rightarrow> real list \<Rightarrow> real" where
  "line_dist a b = \<bar>a ! 0 - b ! 0\<bar> + \<bar>a ! 1 - b ! 1\<bar>"

definition ex_coords :: ndarray where
  "ex_coords = \<lparr>shape1 = 2, rows = [[0, 0], [0, 1], [5, 5], [5, 6], [20, 20], [50, 50], [50, 51]]\<rparr>"

definition ex_events :: ndarray where
  "ex_events = \<lparr>shape1 = 2, rows = [[0, 1/2], [5, 11/2], [50, 101/2]]\<rparr>"

definition ex_event_map :: "int list" where
  "ex_event_map = [0, 0, 1, 1, - 1, 2, 2]"

definition ex_utils :: "(unit, ndarray \<times> int list \<times> real) utils" where
  "ex_utils =
     \<lparr>haversine = line_dist, euclidean = line_dist,
      group_time_distance = (\<lambda>_ _ _ _ _. ()),
      get_stationary_events = (\<lambda>_ _. (ex_events, ex_event_map)),
      infomap_communities = (\<lambda>nodes _. map (\<lambda>n. (n, 0)) nodes),
      compute_intervals = (\<lambda>a ls t. (a, ls, t)),
      set_iteration = sorted_list_of_set\<rparr>"

subsection \<open>Nine events, two of them isolated\<close>

text \<open>
  Events 0 and 2 to 7 lie within 6 of each other, events 1 and 8 are far from everything.
  Line 112 then builds the set \<open>{1, 8}\<close>. CPython keeps a small set of integers in a table
  of eight slots indexed by the value modulo 8, so it iterates this set as 8, 1; the
  stand-in below iterates in descending order.
\<close>

definition desc_utils :: "(unit, ndarray \<times> int list \<times> real) utils" where
  "desc_utils = ex_utils\<lparr>set_iteration := (\<lambda>S. rev (sorted_list_of_set S))\<rparr>"

definition nine_events :: ndarray where
  "nine_events =
     \<lparr>shape1 = 2,
      rows = [[0, 0], [1000, 0], [1, 0], [2, 0], [3, 0], [4, 0], [5, 0], [6, 0], [2000, 0]]\<rparr>"

subsection \<open>Eighteen samples on the nine events\<close>





subsection \<open>A second oracle and a second iteration order\<close>



subsection \<open>The preconditions\<close>

text \<open>
  The preconditions in the words of the specification: two or three columns; with three
  columns the timestamps do not decrease; with the great-circle metric every value of
  column 0 lies strictly between -90 and 90 and every value of column 1 strictly between
  -180 and 180.
\<close>

definition preconditions :: "ndarray \<Rightarrow> distance_function \<Rightarrow> bool" where
  "preconditions coords df =
     ((shape1 coords = 2 \<or> shape1 coords = 3) \<and>
      (shape1 coords = 3 \<longrightarrow> sorted (column coords 2)) \<and>
      (is_haversine df \<longrightarrow>
         list_all (\<lambda>x. - 90 < x \<and> x < 90) (column coords 0) \<and>
         list_all (\<lambda>x. - 180 < x \<and> x < 180) (column coords 1)))"

text \<open>An array of shape \<open>(0, 2)\<close>, and one whose first latitude is out of range.\<close>

definition no_samples :: ndarray where
  "no_samples = \<lparr>shape1 = 2, rows = []\<rparr>"

definition out_of_range :: ndarray where
  "out_of_range = \<lparr>shape1 = 2, rows = [[95, 0], [0, 0]]\<rparr>"

section \<open>The proximity graph\<close>

lemma general_pdist_map:
  "general_pdist X f = map (\<lambda>(i, j). f (rows X ! i) (rows X ! j)) (triu_indices (length (rows X)))"
  by (simp add: general_pdist_def triu_indices_def map_concat comp_def)

lemma set_triu_indices: "set (triu_indices c) = {(i, j). i < j \<and> j < c}"
  by (fastforce simp: triu_indices_def)

lemma set_item_nth:
  "i < length M \<Longrightarrow> j < length (M ! i) \<Longrightarrow>
   set_item M p v ! i ! j = (if p = (i, j) then v else M ! i ! j)"
  by (cases p; cases "fst p = i") (auto simp: set_item_def nth_list_update)

lemma set_item_length [simp]: "length (set_item M p v) = length M"
  by (simp add: set_item_def)

lemma set_item_row_length [simp]: "length (set_item M p v ! i) = length (M ! i)"
proof (cases "fst p = i")
  case True
  then show ?thesis
    by (cases "i < length M") (simp_all add: set_item_def list_update_beyond)
next
  case False
  then show ?thesis by (simp add: set_item_def)
qed

lemma fold_set_item:
  "length (fold (\<lambda>p M. set_item M p (Val (g p))) ps M) = length M \<and>
   (\<forall>i. length (fold (\<lambda>p M. set_item M p (Val (g p))) ps M ! i) = length (M ! i)) \<and>
   (\<forall>i j. i < length M \<longrightarrow> j < length (M ! i) \<longrightarrow>
      fold (\<lambda>p M. set_item M p (Val (g p))) ps M ! i ! j =
        (if (i, j) \<in> set ps then Val (g (i, j)) else M ! i ! j))"
proof (induction ps arbitrary: M)
  case Nil
  show ?case by simp
next
  case (Cons p ps)
  show ?case
    using Cons.IH [of "set_item M p (Val (g p))"]
    by (auto simp: set_item_nth)
qed

lemma zip_map_self: "zip xs (map g xs) = map (\<lambda>x. (x, g x)) xs"
  by (induction xs) auto

lemma assign_triu_general_pdist:
  "assign_triu (length (rows X)) (general_pdist X f) =
     Inr (fold (\<lambda>p M. set_item M p (Val (f (rows X ! fst p) (rows X ! snd p))))
            (triu_indices (length (rows X)))
            (replicate (length (rows X)) (replicate (length (rows X)) NaN)))"
  by (simp add: assign_triu_def general_pdist_map zip_map_self fold_map comp_def
        case_prod_unfold Let_def)

lemma dist_matrix_props:
  "length (dist_matrix X f) = length (rows X)"
  "i < length (rows X) \<Longrightarrow> length (dist_matrix X f ! i) = length (rows X)"
  "i < length (rows X) \<Longrightarrow> j < length (rows X) \<Longrightarrow>
     dist_matrix X f ! i ! j = (if i < j then Val (f (rows X ! i) (rows X ! j)) else NaN)"
  using fold_set_item [of "\<lambda>p. f (rows X ! fst p) (rows X ! snd p)"
          "triu_indices (length (rows X))"
          "replicate (length (rows X)) (replicate (length (rows X)) NaN)"]
  by (auto simp: dist_matrix_def set_triu_indices)

lemma filter_upt_split:
  assumes "i < c"
  shows "filter P [0..<c] = filter P [0..<Suc i] @ filter P [Suc i..<c]"
proof -
  have "[0..<c] = [0..<Suc i] @ [Suc i..<c]"
    using assms by (metis Suc_leI le0 upt_add_eq_append le_add_diff_inverse)
  then show ?thesis by (metis filter_append)
qed

lemma where_less_dist_matrix:
  "where_less (dist_matrix X f) r =
     filter (\<lambda>(i, j). f (rows X ! i) (rows X ! j) < r) (triu_indices (length (rows X)))"
proof -
  let ?c = "length (rows X)"
  have row: "map (Pair i) (filter (\<lambda>j. float_less (dist_matrix X f ! i ! j) r) [0..<?c])
      = filter (\<lambda>(i, j). f (rows X ! i) (rows X ! j) < r) (map (Pair i) [Suc i..<?c])"
    if "i < ?c" for i
  proof -
    have a: "filter (\<lambda>j. float_less (dist_matrix X f ! i ! j) r) [0..<Suc i] = []"
      using that by (auto simp: filter_empty_conv dist_matrix_props float_less_def simp del: upt_Suc)
    have b: "filter (\<lambda>j. float_less (dist_matrix X f ! i ! j) r) [Suc i..<?c]
           = filter (\<lambda>j. f (rows X ! i) (rows X ! j) < r) [Suc i..<?c]"
      using that by (intro filter_cong) (auto simp: dist_matrix_props float_less_def)
    show ?thesis
      using a b filter_upt_split [OF that, of "\<lambda>j. float_less (dist_matrix X f ! i ! j) r"]
      by (simp add: filter_map comp_def del: upt_Suc)
  qed
  show ?thesis
    unfolding where_less_def triu_indices_def filter_concat map_map comp_def
    by (intro arg_cong [where f = concat] map_cong) (auto simp: dist_matrix_props row simp del: upt_Suc)
qed

lemma build_edges_general_pdist:
  "build_edges r2 (length (rows X)) (general_pdist X f) = Inr (near_pairs f r2 X)"
  using assign_triu_general_pdist [of X f]
  by (simp add: build_edges_def near_pairs_def where_less_dist_matrix [unfolded dist_matrix_def])

lemma distinct_triu_indices: "distinct (triu_indices c)"
  unfolding triu_indices_def
proof (rule distinct_concat)
  show "distinct (map (\<lambda>i. map (Pair i) [Suc i..<c]) [0..<c])"
    by (auto simp: distinct_map inj_on_def dest: map_eq_imp_length_eq)
qed (auto simp: distinct_map inj_on_def)

lemma set_near_pairs:
  "set (near_pairs d r X) = {(i, j). i < j \<and> j < length (rows X) \<and> d (rows X ! i) (rows X ! j) < r}"
  by (auto simp: near_pairs_def set_triu_indices)

lemma distinct_near_pairs: "distinct (near_pairs d r X)"
  by (simp add: near_pairs_def distinct_triu_indices)

lemma run_infomap_unfold:
  "run_infomap U r2 coords X df event_map label_singleton return_medoid_labels
       return_intervals max_time_between =
     (if near_pairs (metric U df) r2 X = [] then Inl (Exception no_edge_message)
      else
        (case community_map U (length (rows X)) (near_pairs (metric U df) r2 X) label_singleton of
           Inl e \<Rightarrow> Inl e
         | Inr part \<Rightarrow>
             if return_medoid_labels then Inr (LabelArray (event_labels part (length (rows X))))
             else
               (case gather (event_labels part (length (rows X)) @ [- 1]) event_map of
                  Inl e \<Rightarrow> Inl e
                | Inr coord_labels \<Rightarrow>
                    if return_intervals
                    then Inr (Intervals
                           (compute_intervals U
                              (if shape1 coords = 2 then hstack_times coords else coords)
                              coord_labels max_time_between))
                    else Inr (LabelArray coord_labels))))"
  by (simp add: run_infomap_def build_edges_general_pdist community_map_def graph_nodes_def
        singletons_def Let_def split: sum.splits)

section \<open>The exceptions of each stage\<close>

lemma label_singletons_error: "label_singletons U P S = Inl e \<Longrightarrow> e = ValueError \<and> P = []"
  by (auto simp: label_singletons_def py_max_def split: list.splits)

lemma community_map_error:
  "community_map U c es ls = Inl e \<Longrightarrow>
     e = ValueError \<and> ls \<and> infomap_communities U (graph_nodes es) es = []"
  by (auto simp: community_map_def dest: label_singletons_error split: if_splits)

lemma gather_error: "gather xs idx = Inl e \<Longrightarrow> e = IndexError"
  by (induction idx) (auto simp: py_getitem_def split: if_splits sum.splits)

lemma assert_bounds_error:
  "assert_bounds col lo hi msg = Some e \<Longrightarrow> e = ValueError \<or> e = AssertionError msg"
  by (auto simp: assert_bounds_def np_min_def np_max_def split: list.splits if_splits)

lemma assertions_error: "assertions coords df = Some e \<Longrightarrow> e \<noteq> Exception m"
  by (auto simp: assertions_def split: if_splits option.splits dest: assert_bounds_error)

lemma near_pairs_empty:
  "near_pairs d r X = [] \<longleftrightarrow>
     \<not> (\<exists>i j. i < j \<and> j < length (rows X) \<and> d (rows X ! i) (rows X ! j) < r)"
proof -
  have "near_pairs d r X = [] \<longleftrightarrow> set (near_pairs d r X) = {}" by simp
  then show ?thesis unfolding set_near_pairs by auto
qed

lemma run_infomap_exception:
  "run_infomap U r2 coords X df em ls rm ri mtb = Inl (Exception m) \<longleftrightarrow>
     m = no_edge_message \<and> near_pairs (metric U df) r2 X = []"
  by (auto simp: run_infomap_unfold split: sum.splits if_splits
        dest: community_map_error gather_error)

lemma best_partition_run:
  "assertions coords df = None \<Longrightarrow>
   best_partition U coords r1 r2 rm ls mst mtb df ri ms =
     run_infomap U r2 coords (fst (preprocess U coords r1 mst mtb df ms)) df
       (snd (preprocess U coords r1 mst mtb df ms)) ls rm ri mtb"
  by (simp add: best_partition_def case_prod_unfold Let_def)

section \<open>C3: the error for a graph without edges\<close>

text \<open>
  C3: \<open>best_partition\<close> raises the exception of line 117 exactly when the assertions
  pass and no two event representatives are closer than \<open>r2\<close>, that is when the proximity
  graph has no edge. With an edge, that exception is not raised, whatever the other
  arguments are.
\<close>

theorem no_edge_error:
  "best_partition U coords r1 r2 rm ls mst mtb df ri ms = Inl (Exception m) \<longleftrightarrow>
     m = no_edge_message \<and> assertions coords df = None \<and>
     \<not> (\<exists>i j. i < j \<and> j < length (rows (fst (preprocess U coords r1 mst mtb df ms))) \<and>
            metric U df (rows (fst (preprocess U coords r1 mst mtb df ms)) ! i)
                        (rows (fst (preprocess U coords r1 mst mtb df ms)) ! j) < r2)"
proof (cases "assertions coords df")
  case None
  then show ?thesis
    by (simp add: best_partition_run run_infomap_exception near_pairs_empty)
next
  case (Some e)
  then show ?thesis
    by (auto simp: best_partition_def dest: assertions_error)
qed

theorem no_edge_error_witness:
  "best_partition ex_utils ex_coords 10 2 False False 300 86400 Euclidean False 2
     = Inl (Exception no_edge_message) \<and>
   best_partition ex_utils ex_coords 10 20 False False 300 86400 Euclidean False 2
     \<noteq> Inl (Exception no_edge_message)"
proof -
  have a: "assertions ex_coords Euclidean = None" by code_simp
  have p: "preprocess ex_utils ex_coords 10 300 86400 Euclidean 2 = (ex_events, ex_event_map)"
    by (simp add: preprocess_def ex_utils_def)
  have n: "near_pairs (metric ex_utils Euclidean) 2 ex_events = []" by code_simp
  have y: "near_pairs (metric ex_utils Euclidean) 20 ex_events \<noteq> []" by code_simp
  show ?thesis
    using no_edge_error [of ex_utils ex_coords 10 2 False False 300 86400 Euclidean False 2 no_edge_message]
      no_edge_error [of ex_utils ex_coords 10 20 False False 300 86400 Euclidean False 2 no_edge_message]
      n [unfolded near_pairs_empty] y [unfolded near_pairs_empty]
    by (simp add: a p)
qed

section \<open>C5: the edge set\<close>

lemma assign_triu_dist_matrix:
  "assign_triu (length (rows X)) (general_pdist X d) = Inr (dist_matrix X d)"
  by (simp add: assign_triu_general_pdist dist_matrix_def)

text \<open>
  C5: the edges computed by lines 100 to 109 from the vector of pairwise distances are
  exactly the pairs \<open>(i, j)\<close> with \<open>i < j\<close> below the number of events whose
  representatives are closer than \<open>r2\<close>. No edge is listed twice, none is a self-loop and
  none occurs in both directions. The matrix that is compared with \<open>r2\<close> holds NaN on and
  below the diagonal, whatever the metric is, so no distance of an event to itself is
  compared.
\<close>

theorem proximity_graph_edges:
  "build_edges r2 (length (rows X)) (general_pdist X d) = Inr (near_pairs d r2 X) \<and>
   set (near_pairs d r2 X) =
     {(i, j). i < j \<and> j < length (rows X) \<and> d (rows X ! i) (rows X ! j) < r2} \<and>
   distinct (near_pairs d r2 X) \<and>
   (\<forall>i j. (i, j) \<in> set (near_pairs d r2 X) \<longrightarrow> i \<noteq> j \<and> (j, i) \<notin> set (near_pairs d r2 X)) \<and>
   assign_triu (length (rows X)) (general_pdist X d) = Inr (dist_matrix X d) \<and>
   (\<forall>i j. i < length (rows X) \<longrightarrow> j \<le> i \<longrightarrow> dist_matrix X d ! i ! j = NaN)"
proof (intro conjI)
  show "build_edges r2 (length (rows X)) (general_pdist X d) = Inr (near_pairs d r2 X)"
    by (rule build_edges_general_pdist)
  show "set (near_pairs d r2 X) =
     {(i, j). i < j \<and> j < length (rows X) \<and> d (rows X ! i) (rows X ! j) < r2}"
    by (rule set_near_pairs)
  show "distinct (near_pairs d r2 X)" by (rule distinct_near_pairs)
  show "\<forall>i j. (i, j) \<in> set (near_pairs d r2 X) \<longrightarrow> i \<noteq> j \<and> (j, i) \<notin> set (near_pairs d r2 X)"
    by (auto simp: set_near_pairs)
  show "assign_triu (length (rows X)) (general_pdist X d) = Inr (dist_matrix X d)"
    by (rule assign_triu_dist_matrix)
  show "\<forall>i j. i < length (rows X) \<longrightarrow> j \<le> i \<longrightarrow> dist_matrix X d ! i ! j = NaN"
    by (simp add: dist_matrix_props)
qed

theorem proximity_graph_edges_witness:
  "build_edges 20 (length (rows ex_events)) (general_pdist ex_events line_dist) = Inr [(0, 1)] \<and>
   (0, 1) \<in> {(i, j). i < j \<and> j < length (rows ex_events) \<and>
                line_dist (rows ex_events ! i) (rows ex_events ! j) < 20} \<and>
   dist_matrix ex_events line_dist ! 1 ! 1 = NaN \<and>
   dist_matrix ex_events line_dist ! 1 ! 0 = NaN"
proof -
  have e: "near_pairs line_dist 20 ex_events = [(0, 1)]" by code_simp
  have l: "(1::nat) < length (rows ex_events)" by code_simp
  show ?thesis
    using proximity_graph_edges [of 20 ex_events line_dist] l unfolding e by auto
qed

section \<open>C4: fresh ids for singletons\<close>

lemma map_of_dict_update: "map_of (dict_update d e) = map_of d ++ map_of (rev e)"
proof (induction e arbitrary: d)
  case Nil
  show ?case by (simp add: dict_update_def)
next
  case (Cons kv e)
  obtain k v where kv: "kv = (k, v)" by (cases kv)
  have "map_of (dict_update d (kv # e)) = map_of (dict_update (AList.update k v d) e)"
    by (simp add: dict_update_def kv)
  also have "\<dots> = (map_of d)(k \<mapsto> v) ++ map_of (rev e)"
    by (simp add: Cons.IH AList.update_conv' fun_eq_iff map_add_def split: option.splits)
  also have "\<dots> = map_of d ++ map_of (rev (kv # e))"
    by (simp add: kv map_add_upd_left fun_eq_iff map_add_def split: option.splits)
  finally show ?case .
qed

lemma map_of_rev_distinct: "distinct (map fst e) \<Longrightarrow> map_of (rev e) = map_of e"
  by (rule map_of_inject_set [THEN iffD2]) (simp_all add: rev_map [symmetric])

lemma py_max_Max: "vs \<noteq> [] \<Longrightarrow> py_max vs = Inr (Max (set vs))"
proof (cases vs)
  case Nil
  then show "vs \<noteq> [] \<Longrightarrow> ?thesis" by simp
next
  case (Cons v ws)
  then show ?thesis
    using Max.set_eq_fold [of v ws] by (simp add: py_max_def)
qed

lemma label_singletons_eq:
  assumes "P0 \<noteq> []" "set (set_iteration U S) = S" "distinct (set_iteration U S)"
  shows "label_singletons U P0 S = Inr (dict_update P0 (fresh_ids P0 (set_iteration U S)))"
proof -
  have "card S = length (set_iteration U S)"
    using assms(2,3) distinct_card by fastforce
  then show ?thesis
    using assms(1) by (simp add: label_singletons_def py_max_Max fresh_ids_def)
qed

lemma map_of_fresh_ids:
  assumes "distinct order"
  shows "k < length order \<Longrightarrow> map_of (rev (fresh_ids P0 order)) (order ! k) = Some (Max (snd ` set P0) + 1 + int k)"
    and "n \<notin> set order \<Longrightarrow> map_of (rev (fresh_ids P0 order)) n = None"
proof -
  have d: "distinct (map fst (fresh_ids P0 order))"
    using assms by (simp add: fresh_ids_def)
  show "map_of (rev (fresh_ids P0 order)) (order ! k) = Some (Max (snd ` set P0) + 1 + int k)"
    if "k < length order"
    using that assms map_of_zip_nth [of order "map (\<lambda>k. Max (snd ` set P0) + 1 + int k) [0..<length order]" k]
    by (simp add: map_of_rev_distinct [OF d]) (simp add: fresh_ids_def)
  show "map_of (rev (fresh_ids P0 order)) n = None" if "n \<notin> set order"
    using that by (simp add: map_of_rev_distinct [OF d]) (simp add: fresh_ids_def)
qed

text \<open>
  C4 (amended): with \<open>label_singleton\<close> set and a partition that is not empty, lines 125
  to 129 succeed and give every singleton event a fresh community id: the \<open>k\<close>-th
  singleton in the order in which the runtime iterates over the set of singletons gets
  the largest id of the oracle plus \<open>1 + k\<close>. The other events keep what the oracle gave
  them, two singletons never share an id, and no singleton gets an id that the oracle
  produced. The order is that of the set iteration and not the order of the event indices.
\<close>

theorem singleton_ids:
  assumes "P0 \<noteq> []" and "set (set_iteration U S) = S" and "distinct (set_iteration U S)"
  shows "\<exists>P. label_singletons U P0 S = Inr P \<and>
    (\<forall>k < card S. map_of P (set_iteration U S ! k) = Some (Max (snd ` set P0) + 1 + int k)) \<and>
    (\<forall>n. n \<notin> S \<longrightarrow> map_of P n = map_of P0 n) \<and>
    (\<forall>s \<in> S. \<forall>t \<in> S. s \<noteq> t \<longrightarrow> map_of P s \<noteq> map_of P t) \<and>
    (\<forall>s \<in> S. \<forall>v \<in> snd ` set P0. map_of P s \<noteq> Some v)"
proof -
  let ?order = "set_iteration U S"
  let ?m = "Max (snd ` set P0)"
  let ?P = "dict_update P0 (fresh_ids P0 ?order)"
  have len: "card S = length ?order"
    using assms(2,3) distinct_card by fastforce
  have eq: "label_singletons U P0 S = Inr ?P"
    by (rule label_singletons_eq [OF assms])
  have at: "map_of ?P (?order ! k) = Some (?m + 1 + int k)" if "k < length ?order" for k
    using that by (simp add: map_of_dict_update map_of_fresh_ids(1) [OF assms(3)])
  have out: "map_of ?P n = map_of P0 n" if "n \<notin> S" for n
    using that assms(2)
    by (simp add: map_of_dict_update map_add_def map_of_fresh_ids(2) [OF assms(3)])
  have idx: "\<exists>k < length ?order. s = ?order ! k" if "s \<in> S" for s
    using that assms(2) by (metis in_set_conv_nth)
  have inj: "map_of ?P s \<noteq> map_of ?P t" if st: "s \<in> S" "t \<in> S" "s \<noteq> t" for s t
  proof -
    obtain k where k: "k < length ?order" "s = ?order ! k" using idx [OF st(1)] by blast
    obtain l where l: "l < length ?order" "t = ?order ! l" using idx [OF st(2)] by blast
    have "k \<noteq> l" using k l st(3) by auto
    then show ?thesis using at [OF k(1)] at [OF l(1)] k l by simp
  qed
  have fresh: "map_of ?P s \<noteq> Some v" if sv: "s \<in> S" "v \<in> snd ` set P0" for s v
  proof -
    obtain k where k: "k < length ?order" "s = ?order ! k" using idx [OF sv(1)] by blast
    have "v \<le> ?m" using sv(2) by (intro Max_ge) auto
    then show ?thesis using at [OF k(1)] k by simp
  qed
  show ?thesis
    using eq at out inj fresh unfolding len by blast
qed

theorem singleton_ids_witness:
  "\<exists>P. label_singletons ex_utils [(0, 0), (1, 0)] {2} = Inr P \<and>
     map_of P 2 = Some 1 \<and> map_of P 0 = Some 0 \<and> map_of P 2 \<noteq> Some 0"
proof -
  have a: "[(0, 0), (1, 0)] \<noteq> ([] :: (nat \<times> int) list)" by simp
  have b: "set (set_iteration ex_utils {2}) = {2}" by code_simp
  have c: "distinct (set_iteration ex_utils {2})" by code_simp
  have d: "set_iteration ex_utils {2} ! 0 = 2" by code_simp
  have e: "Max (snd ` set [(0::nat, 0::int), (1, 0)]) = 0" by code_simp
  from singleton_ids [OF a b c] obtain P where
    P: "label_singletons ex_utils [(0, 0), (1, 0)] {2} = Inr P"
       "\<forall>k < card {2::nat}. map_of P (set_iteration ex_utils {2} ! k)
            = Some (Max (snd ` set [(0::nat, 0::int), (1, 0)]) + 1 + int k)"
       "\<forall>n. n \<notin> {2::nat} \<longrightarrow> map_of P n = map_of [(0, 0), (1, 0)] n"
       "\<forall>s \<in> {2::nat}. \<forall>v \<in> snd ` set [(0::nat, 0::int), (1, 0)]. map_of P s \<noteq> Some v"
    by blast
  have "map_of P 2 = Some 1" using P(2) d e by simp
  moreover have "map_of P 0 = Some 0" using P(3) by simp
  moreover have "map_of P 2 \<noteq> Some 0" using P(4) by simp
  ultimately show ?thesis using P(1) by blast
qed

text \<open>
  The order of the event indices is not kept: when the set \<open>{1, 8}\<close> is iterated as 8, 1,
  event 8 gets the first fresh id and event 1 the second.
\<close>

theorem fresh_ids_out_of_index_order:
  "label_singletons desc_utils [(0, 0), (2, 0), (3, 0), (4, 0), (5, 0), (6, 0), (7, 0)] {1, 8}
     = Inr [(0, 0), (2, 0), (3, 0), (4, 0), (5, 0), (6, 0), (7, 0), (8, 1), (1, 2)] \<and>
   \<not> ids_in_index_order [(0, 0), (2, 0), (3, 0), (4, 0), (5, 0), (6, 0), (7, 0)] {1, 8}
        [(0, 0), (2, 0), (3, 0), (4, 0), (5, 0), (6, 0), (7, 0), (8, 1), (1, 2)] \<and>
   run_infomap desc_utils 10 nine_events nine_events Euclidean [] True True False 0
     = Inr (LabelArray [0, 2, 0, 0, 0, 0, 0, 0, 1])"
  by code_simp

section \<open>C2: the label lookup\<close>

lemma gather_valid:
  assumes "\<forall>i \<in> set em. i = - 1 \<or> (0 \<le> i \<and> i < int (length labels))"
  shows "gather (labels @ [- 1]) em = Inr (map (\<lambda>i. if i = - 1 then - 1 else labels ! nat i) em)"
  using assms
proof (induction em)
  case Nil
  show ?case by simp
next
  case (Cons i em)
  have "py_getitem (labels @ [- 1]) i = Inr (if i = - 1 then - 1 else labels ! nat i)"
    using Cons.prems by (auto simp: py_getitem_def nth_append)
  then show ?case using Cons by simp
qed

lemma length_event_labels [simp]: "length (event_labels part c) = c"
  by (simp add: event_labels_def)

lemma event_labels_nth:
  "n < c \<Longrightarrow> event_labels part c ! n = (case map_of part n of Some l \<Rightarrow> l | None \<Rightarrow> - 1)"
  by (simp add: event_labels_def)

lemma community_map_total:
  assumes "ls \<longrightarrow> infomap_communities U (graph_nodes es) es \<noteq> []"
  shows "\<exists>part. community_map U c es ls = Inr part"
  using assms
  by (cases "community_map U c es ls") (auto dest: community_map_error)

lemma label_singletons_values:
  assumes "label_singletons U P0 S = Inr part" and "map_of part n = Some v"
  shows "v \<in> snd ` set P0 \<or> Max (snd ` set P0) < v"
proof -
  have ne: "P0 \<noteq> []" using assms(1) by (auto simp: label_singletons_def py_max_def)
  let ?e = "zip (set_iteration U S) (map (\<lambda>k. Max (snd ` set P0) + 1 + int k) [0..<card S])"
  have part: "part = dict_update P0 ?e"
    using assms(1) ne by (simp add: label_singletons_def py_max_Max)
  show ?thesis
  proof (cases "map_of (rev ?e) n")
    case None
    then have "map_of P0 n = Some v"
      using assms(2) by (simp add: part map_of_dict_update map_add_def)
    then show ?thesis by (metis map_of_SomeD image_eqI snd_conv)
  next
    case (Some w)
    then have "w = v" using assms(2) by (simp add: part map_of_dict_update map_add_def)
    moreover have "(n, w) \<in> set ?e" using Some by (metis map_of_SomeD set_rev)
    then have "w \<in> set (map (\<lambda>k. Max (snd ` set P0) + 1 + int k) [0..<card S])"
      by (rule set_zip_rightD)
    ultimately show ?thesis by auto
  qed
qed

lemma community_map_nonneg:
  assumes "community_map U c es ls = Inr part"
    and "\<forall>v \<in> snd ` set (infomap_communities U (graph_nodes es) es). 0 \<le> v"
    and "map_of part n = Some v"
  shows "0 \<le> v"
proof (cases ls)
  case False
  then have "part = infomap_communities U (graph_nodes es) es"
    using assms(1) by (simp add: community_map_def)
  then show ?thesis using assms(2,3) by (metis map_of_SomeD image_eqI snd_conv)
next
  case True
  let ?P0 = "infomap_communities U (graph_nodes es) es"
  have ls: "label_singletons U ?P0 (singletons c es) = Inr part"
    using assms(1) True by (simp add: community_map_def)
  then have ne: "?P0 \<noteq> []" by (auto simp: label_singletons_def py_max_def)
  then have "Max (snd ` set ?P0) \<in> snd ` set ?P0" by (intro Max_in) auto
  then have "0 \<le> Max (snd ` set ?P0)" using assms(2) by blast
  then show ?thesis
    using label_singletons_values [OF ls assms(3)] assms(2) by auto
qed

text \<open>
  C2: when the graph has an edge, the partition can be relabelled (with \<open>label_singleton\<close>
  the oracle's partition is not empty) and every value of the event map is the sentinel
  \<open>-1\<close> or an event index below the number of events, the lookup of lines 144 and 145
  raises nothing and returns one label per entry of the event map: \<open>-1\<close> for the
  sentinel, the community id for an event index that the partition assigns, and \<open>-1\<close>
  for an event index that it does not assign. If the ids of the oracle are non-negative,
  each label is \<open>-1\<close> or non-negative.
\<close>

theorem label_lookup:
  assumes "near_pairs (metric U df) r2 X \<noteq> []"
    and "ls \<longrightarrow> infomap_communities U (graph_nodes (near_pairs (metric U df) r2 X))
                  (near_pairs (metric U df) r2 X) \<noteq> []"
    and "\<forall>i \<in> set em. i = - 1 \<or> (0 \<le> i \<and> i < int (length (rows X)))"
  shows "\<exists>part labels.
      community_map U (length (rows X)) (near_pairs (metric U df) r2 X) ls = Inr part \<and>
      run_infomap U r2 coords X df em ls False False mtb = Inr (LabelArray labels) \<and>
      labels = map (\<lambda>i. if i = - 1 then - 1
                         else (case map_of part (nat i) of Some l \<Rightarrow> l | None \<Rightarrow> - 1)) em \<and>
      ((\<forall>v \<in> snd ` set (infomap_communities U (graph_nodes (near_pairs (metric U df) r2 X))
                          (near_pairs (metric U df) r2 X)). 0 \<le> v)
         \<longrightarrow> (\<forall>l \<in> set labels. l = - 1 \<or> 0 \<le> l))"
proof -
  let ?es = "near_pairs (metric U df) r2 X"
  let ?c = "length (rows X)"
  obtain part where part: "community_map U ?c ?es ls = Inr part"
    using community_map_total [OF assms(2)] by blast
  let ?look = "\<lambda>i::int. if i = - 1 then - 1
                 else (case map_of part (nat i) of Some l \<Rightarrow> l | None \<Rightarrow> - 1)"
  have "gather (event_labels part ?c @ [- 1]) em
      = Inr (map (\<lambda>i. if i = - 1 then - 1 else event_labels part ?c ! nat i) em)"
    using assms(3) by (intro gather_valid) simp
  also have "map (\<lambda>i. if i = - 1 then - 1 else event_labels part ?c ! nat i) em = map ?look em"
    using assms(3) by (intro map_cong) (auto simp: event_labels_nth)
  finally have g: "gather (event_labels part ?c @ [- 1]) em = Inr (map ?look em)" .
  have run: "run_infomap U r2 coords X df em ls False False mtb = Inr (LabelArray (map ?look em))"
    using assms(1) by (simp add: run_infomap_unfold part g)
  have nn: "\<forall>l \<in> set (map ?look em). l = - 1 \<or> 0 \<le> l"
    if "\<forall>v \<in> snd ` set (infomap_communities U (graph_nodes ?es) ?es). 0 \<le> v"
    using community_map_nonneg [OF part that] by (auto split: option.splits)
  show ?thesis using part run nn by blast
qed

theorem label_lookup_witness:
  "run_infomap ex_utils 20 ex_coords ex_events Euclidean ex_event_map True False False 86400
     = Inr (LabelArray [0, 0, 0, 0, - 1, 1, 1])"
proof -
  let ?es = "near_pairs (metric ex_utils Euclidean) 20 ex_events"
  have a: "?es \<noteq> []" by code_simp
  have b: "True \<longrightarrow> infomap_communities ex_utils (graph_nodes ?es) ?es \<noteq> []" by code_simp
  have c: "\<forall>i \<in> set ex_event_map. i = - 1 \<or> (0 \<le> i \<and> i < int (length (rows ex_events)))"
    by code_simp
  have cm: "community_map ex_utils (length (rows ex_events)) ?es True = Inr [(0, 0), (1, 0), (2, 1)]"
    by code_simp
  from label_lookup [OF a b c, of ex_coords 86400] obtain part labels where
    p: "community_map ex_utils (length (rows ex_events)) ?es True = Inr part"
    and r: "run_infomap ex_utils 20 ex_coords ex_events Euclidean ex_event_map True False False 86400
              = Inr (LabelArray labels)"
    and l: "labels = map (\<lambda>i. if i = - 1 then - 1
                         else (case map_of part (nat i) of Some l \<Rightarrow> l | None \<Rightarrow> - 1)) ex_event_map"
    by blast
  have "part = [(0, 0), (1, 0), (2, 1)]" using p cm by simp
  then have "labels = [0, 0, 0, 0, - 1, 1, 1]" using l by (simp add: ex_event_map_def)
  then show ?thesis using r by simp
qed

section \<open>C1: one label per sample\<close>

lemma gather_length: "gather xs idx = Inr ys \<Longrightarrow> length ys = length idx"
  by (induction idx arbitrary: ys) (auto split: sum.splits)

lemma best_partition_pre:
  assumes "assertions coords df = None" and "preprocess U coords r1 mst mtb df ms = (X, em)"
  shows "best_partition U coords r1 r2 rm ls mst mtb df ri ms =
           run_infomap U r2 coords X df em ls rm ri mtb"
  using assms by (simp add: best_partition_run)

lemma run_infomap_labels:
  assumes "near_pairs (metric U df) r2 X \<noteq> []"
    and "community_map U (length (rows X)) (near_pairs (metric U df) r2 X) ls = Inr part"
    and "\<forall>i \<in> set em. i = - 1 \<or> (0 \<le> i \<and> i < int (length (rows X)))"
  shows "gather (event_labels part (length (rows X)) @ [- 1]) em =
           Inr (map (\<lambda>i. if i = - 1 then - 1 else event_labels part (length (rows X)) ! nat i) em)"
    and "run_infomap U r2 coords X df em ls False False mtb =
           Inr (LabelArray
                  (map (\<lambda>i. if i = - 1 then - 1 else event_labels part (length (rows X)) ! nat i) em))"
proof -
  show g: "gather (event_labels part (length (rows X)) @ [- 1]) em =
           Inr (map (\<lambda>i. if i = - 1 then - 1 else event_labels part (length (rows X)) ! nat i) em)"
    using assms(3) by (intro gather_valid) simp
  show "run_infomap U r2 coords X df em ls False False mtb =
           Inr (LabelArray
                  (map (\<lambda>i. if i = - 1 then - 1 else event_labels part (length (rows X)) ! nat i) em))"
    using assms(1) by (simp add: run_infomap_unfold assms(2) g)
qed

lemma run_infomap_label_array:
  assumes "run_infomap U r2 coords X df em ls False ri mtb = Inr (LabelArray labels)"
  shows "length labels = length em"
  using assms
  by (auto simp: run_infomap_unfold split: if_splits sum.splits dest: gather_length)

text \<open>
  C1: let the event map returned by the preprocessing have one entry per input sample, as
  \<open>utils.get_stationary_events\<close> promises. Then every array of labels that
  \<open>best_partition\<close> returns with \<open>return_medoid_labels\<close> false has as many labels as
  there are input samples. Such an array is returned whenever the assertions pass, the
  graph has an edge, the partition can be relabelled and the event map holds only the
  sentinel and event indices below the number of events.
\<close>

theorem one_label_per_sample:
  assumes "preprocess U coords r1 mst mtb df ms = (X, em)"
    and "length em = length (rows coords)"
  shows "(\<forall>labels. best_partition U coords r1 r2 False ls mst mtb df ri ms = Inr (LabelArray labels)
            \<longrightarrow> length labels = length (rows coords)) \<and>
         (assertions coords df = None \<and> near_pairs (metric U df) r2 X \<noteq> [] \<and>
          (ls \<longrightarrow> infomap_communities U (graph_nodes (near_pairs (metric U df) r2 X))
                    (near_pairs (metric U df) r2 X) \<noteq> []) \<and>
          (\<forall>i \<in> set em. i = - 1 \<or> (0 \<le> i \<and> i < int (length (rows X))))
            \<longrightarrow> (\<exists>labels. best_partition U coords r1 r2 False ls mst mtb df False ms
                              = Inr (LabelArray labels)))"
proof (intro conjI allI impI)
  fix labels
  assume bp: "best_partition U coords r1 r2 False ls mst mtb df ri ms = Inr (LabelArray labels)"
  then have a: "assertions coords df = None"
    by (cases "assertions coords df") (simp_all add: best_partition_def)
  have "run_infomap U r2 coords X df em ls False ri mtb = Inr (LabelArray labels)"
    using bp by (simp add: best_partition_pre [OF a assms(1)])
  then show "length labels = length (rows coords)"
    using assms(2) by (simp add: run_infomap_label_array)
next
  assume v: "assertions coords df = None \<and> near_pairs (metric U df) r2 X \<noteq> [] \<and>
          (ls \<longrightarrow> infomap_communities U (graph_nodes (near_pairs (metric U df) r2 X))
                    (near_pairs (metric U df) r2 X) \<noteq> []) \<and>
          (\<forall>i \<in> set em. i = - 1 \<or> (0 \<le> i \<and> i < int (length (rows X))))"
  then obtain part where
    "community_map U (length (rows X)) (near_pairs (metric U df) r2 X) ls = Inr part"
    using community_map_total by blast
  then show "\<exists>labels. best_partition U coords r1 r2 False ls mst mtb df False ms
                              = Inr (LabelArray labels)"
    using v run_infomap_labels(2) [of U df r2 X ls part em coords mtb]
    by (simp add: best_partition_pre [OF _ assms(1)])
qed

theorem one_label_per_sample_witness:
  "best_partition ex_utils ex_coords 10 20 False True 300 86400 Euclidean False 2
     = Inr (LabelArray [0, 0, 0, 0, - 1, 1, 1]) \<and>
   length [0, 0, 0, 0, - 1, 1, 1 :: int] = length (rows ex_coords)"
proof -
  have p: "preprocess ex_utils ex_coords 10 300 86400 Euclidean 2 = (ex_events, ex_event_map)"
    by (simp add: preprocess_def ex_utils_def)
  have l: "length ex_event_map = length (rows ex_coords)" by code_simp
  have v: "best_partition ex_utils ex_coords 10 20 False True 300 86400 Euclidean False 2
     = Inr (LabelArray [0, 0, 0, 0, - 1, 1, 1])" by code_simp
  have a: "assertions ex_coords Euclidean = None" by code_simp
  have n: "near_pairs (metric ex_utils Euclidean) 20 ex_events \<noteq> []" by code_simp
  have e: "\<forall>i \<in> set ex_event_map. i = - 1 \<or> (0 \<le> i \<and> i < int (length (rows ex_events)))"
    by code_simp
  show ?thesis
    using one_label_per_sample [OF p l, of 20 True False] v a n e by simp
qed

section \<open>C7: labels of the events\<close>

lemma run_infomap_medoid:
  "run_infomap U r2 coords X df em ls True ri mtb =
     (if near_pairs (metric U df) r2 X = [] then Inl (Exception no_edge_message)
      else (case community_map U (length (rows X)) (near_pairs (metric U df) r2 X) ls of
              Inl e \<Rightarrow> Inl e
            | Inr part \<Rightarrow> Inr (LabelArray (event_labels part (length (rows X))))))"
  by (simp add: run_infomap_unfold split: sum.splits)

lemma metric_compute_intervals [simp]: "metric (U\<lparr>compute_intervals := f\<rparr>) df = metric U df"
  by (simp add: metric_def fun_eq_iff split: distance_function.splits)

lemma preprocess_compute_intervals [simp]:
  "preprocess (U\<lparr>compute_intervals := f\<rparr>) coords r1 mst mtb df ms =
     preprocess U coords r1 mst mtb df ms"
  by (simp add: preprocess_def)

lemma community_map_compute_intervals [simp]:
  "community_map (U\<lparr>compute_intervals := f\<rparr>) c es ls = community_map U c es ls"
  by (simp add: community_map_def label_singletons_def split: sum.splits)

text \<open>
  C7: with \<open>return_medoid_labels\<close> set, the result of \<open>best_partition\<close> does not depend
  on \<open>return_intervals\<close> nor on the interval aggregation: it is the same with the flag
  negated and \<open>utils.compute_intervals\<close> replaced by any other function. When the
  assertions pass, the graph has an edge and the partition is there, the result is the
  array of the labels of the events: one label per event, the community id of the event
  or \<open>-1\<close> when it has none.
\<close>

theorem medoid_mode:
  "best_partition U coords r1 r2 True ls mst mtb df ri ms =
     best_partition (U\<lparr>compute_intervals := f\<rparr>) coords r1 r2 True ls mst mtb df (\<not> ri) ms \<and>
   (\<forall>X em part.
      assertions coords df = None \<and> preprocess U coords r1 mst mtb df ms = (X, em) \<and>
      near_pairs (metric U df) r2 X \<noteq> [] \<and>
      community_map U (length (rows X)) (near_pairs (metric U df) r2 X) ls = Inr part
      \<longrightarrow>
      best_partition U coords r1 r2 True ls mst mtb df ri ms
        = Inr (LabelArray (event_labels part (length (rows X)))) \<and>
      length (event_labels part (length (rows X))) = length (rows X) \<and>
      (\<forall>n < length (rows X).
         event_labels part (length (rows X)) ! n
           = (case map_of part n of Some l \<Rightarrow> l | None \<Rightarrow> - 1)))"
proof (intro conjI allI impI)
  show "best_partition U coords r1 r2 True ls mst mtb df ri ms =
     best_partition (U\<lparr>compute_intervals := f\<rparr>) coords r1 r2 True ls mst mtb df (\<not> ri) ms"
    by (cases "assertions coords df")
       (simp_all add: best_partition_def case_prod_unfold run_infomap_medoid Let_def)
next
  fix X em part
  assume h: "assertions coords df = None \<and> preprocess U coords r1 mst mtb df ms = (X, em) \<and>
      near_pairs (metric U df) r2 X \<noteq> [] \<and>
      community_map U (length (rows X)) (near_pairs (metric U df) r2 X) ls = Inr part"
  then show "best_partition U coords r1 r2 True ls mst mtb df ri ms
        = Inr (LabelArray (event_labels part (length (rows X))))"
    by (simp add: best_partition_run run_infomap_medoid)
  show "length (event_labels part (length (rows X))) = length (rows X)" by simp
  fix n
  assume "n < length (rows X)"
  then show "event_labels part (length (rows X)) ! n
           = (case map_of part n of Some l \<Rightarrow> l | None \<Rightarrow> - 1)"
    by (rule event_labels_nth)
qed

theorem medoid_mode_witness:
  "best_partition ex_utils ex_coords 10 20 True False 300 86400 Euclidean True 2
     = Inr (LabelArray [0, 0, - 1]) \<and>
   best_partition ex_utils ex_coords 10 20 True False 300 86400 Euclidean False 2
     = Inr (LabelArray [0, 0, - 1])"
proof -
  let ?es = "near_pairs (metric ex_utils Euclidean) 20 ex_events"
  have a: "assertions ex_coords Euclidean = None" by code_simp
  have p: "preprocess ex_utils ex_coords 10 300 86400 Euclidean 2 = (ex_events, ex_event_map)"
    by (simp add: preprocess_def ex_utils_def)
  have n: "?es \<noteq> []" by code_simp
  have c: "community_map ex_utils (length (rows ex_events)) ?es False = Inr [(0, 0), (1, 0)]"
    by code_simp
  have l: "event_labels [(0, 0), (1, 0)] (length (rows ex_events)) = [0, 0, - 1]" by code_simp
  have m: "best_partition ex_utils ex_coords 10 20 True False 300 86400 Euclidean True 2
      = Inr (LabelArray (event_labels [(0, 0), (1, 0)] (length (rows ex_events))))"
    using medoid_mode [of ex_utils ex_coords 10 20 False 300 86400 Euclidean True 2] a p n c
    by blast
  have m': "best_partition ex_utils ex_coords 10 20 True False 300 86400 Euclidean False 2
      = Inr (LabelArray (event_labels [(0, 0), (1, 0)] (length (rows ex_events))))"
    using medoid_mode [of ex_utils ex_coords 10 20 False 300 86400 Euclidean False 2] a p n c
    by blast
  show ?thesis using m m' l by simp
qed

section \<open>C8: synthesized timestamps\<close>

lemma assertions_None_shape: "assertions coords df = None \<Longrightarrow> shape1 coords = 2 \<or> shape1 coords = 3"
  by (auto simp: assertions_def split: if_splits)

lemma hstack_times_rows:
  "length (rows (hstack_times a)) = length (rows a)"
  "k < length (rows a) \<Longrightarrow> rows (hstack_times a) ! k = rows a ! k @ [real k]"
  by (simp_all add: hstack_times_def)

text \<open>
  C8: on every run that reaches the interval aggregation (the assertions pass, the graph
  has an edge, the partition and the labels of the samples are there, \<open>return_intervals\<close>
  is set and \<open>return_medoid_labels\<close> is not), \<open>utils.compute_intervals\<close> is called with
  an array of three columns. For an input of two columns it is a new array of as many
  rows, row \<open>k\<close> being row \<open>k\<close> of the input followed by the number \<open>k\<close>.
\<close>

theorem synthesized_timestamps:
  assumes "assertions coords df = None"
    and "preprocess U coords r1 mst mtb df ms = (X, em)"
    and "near_pairs (metric U df) r2 X \<noteq> []"
    and "community_map U (length (rows X)) (near_pairs (metric U df) r2 X) ls = Inr part"
    and "gather (event_labels part (length (rows X)) @ [- 1]) em = Inr cl"
  shows "best_partition U coords r1 r2 False ls mst mtb df True ms =
           Inr (Intervals (compute_intervals U
                  (if shape1 coords = 2 then hstack_times coords else coords) cl mtb)) \<and>
         shape1 (if shape1 coords = 2 then hstack_times coords else coords) = 3 \<and>
         (shape1 coords = 2 \<longrightarrow>
            length (rows (hstack_times coords)) = length (rows coords) \<and>
            (\<forall>k < length (rows coords). rows (hstack_times coords) ! k = rows coords ! k @ [real k]))"
proof (intro conjI impI)
  show "best_partition U coords r1 r2 False ls mst mtb df True ms =
           Inr (Intervals (compute_intervals U
                  (if shape1 coords = 2 then hstack_times coords else coords) cl mtb))"
    using assms(3) by (simp add: best_partition_pre [OF assms(1,2)] run_infomap_unfold assms(4,5))
  show "shape1 (if shape1 coords = 2 then hstack_times coords else coords) = 3"
    using assertions_None_shape [OF assms(1)] by (auto simp: hstack_times_def)
  show "length (rows (hstack_times coords)) = length (rows coords)"
    by (rule hstack_times_rows)
  show "\<forall>k < length (rows coords). rows (hstack_times coords) ! k = rows coords ! k @ [real k]"
    by (simp add: hstack_times_rows)
qed

theorem synthesized_timestamps_witness:
  "best_partition ex_utils ex_coords 10 20 False True 300 86400 Euclidean True 2 =
     Inr (Intervals
       (\<lparr>shape1 = 3,
         rows = [[0, 0, 0], [0, 1, 1], [5, 5, 2], [5, 6, 3], [20, 20, 4], [50, 50, 5], [50, 51, 6]]\<rparr>,
        [0, 0, 0, 0, - 1, 1, 1], 86400))"
proof -
  let ?es = "near_pairs (metric ex_utils Euclidean) 20 ex_events"
  have a: "assertions ex_coords Euclidean = None" by code_simp
  have p: "preprocess ex_utils ex_coords 10 300 86400 Euclidean 2 = (ex_events, ex_event_map)"
    by (simp add: preprocess_def ex_utils_def)
  have n: "?es \<noteq> []" by code_simp
  have c: "community_map ex_utils (length (rows ex_events)) ?es True = Inr [(0, 0), (1, 0), (2, 1)]"
    by code_simp
  have g: "gather (event_labels [(0, 0), (1, 0), (2, 1)] (length (rows ex_events)) @ [- 1]) ex_event_map
             = Inr [0, 0, 0, 0, - 1, 1, 1]"
    by code_simp
  have h: "(if shape1 ex_coords = 2 then hstack_times ex_coords else ex_coords) =
      \<lparr>shape1 = 3,
        rows = [[0, 0, 0], [0, 1, 1], [5, 5, 2], [5, 6, 3], [20, 20, 4], [50, 50, 5], [50, 51, 6]]\<rparr>"
    by code_simp
  have ci: "compute_intervals ex_utils = (\<lambda>a ls t. (a, ls, t))" by (simp add: ex_utils_def)
  show ?thesis
    using synthesized_timestamps [OF a p n c g] unfolding h ci by simp
qed

section \<open>C6: the assertions\<close>

lemma nondecreasing_sorted: "nondecreasing ts = sorted ts"
  by (induction ts rule: induct_list012) (auto simp: nondecreasing_def intro: order_trans)

lemma np_min_Min: "xs \<noteq> [] \<Longrightarrow> np_min xs = Inr (Min (set xs))"
proof (cases xs)
  case Nil
  then show "xs \<noteq> [] \<Longrightarrow> ?thesis" by simp
next
  case (Cons x ys)
  then show ?thesis using Min.set_eq_fold [of x ys] by (simp add: np_min_def)
qed

lemma np_max_Max: "xs \<noteq> [] \<Longrightarrow> np_max xs = Inr (Max (set xs))"
proof (cases xs)
  case Nil
  then show "xs \<noteq> [] \<Longrightarrow> ?thesis" by simp
next
  case (Cons x ys)
  then show ?thesis using Max.set_eq_fold [of x ys] by (simp add: np_max_def)
qed

lemma assert_bounds_nonempty:
  assumes "col \<noteq> []"
  shows "assert_bounds col lo hi msg =
           (if list_all (\<lambda>x. lo < x \<and> x < hi) col then None else Some (AssertionError msg))"
proof -
  have "lo < Min (set col) \<longleftrightarrow> (\<forall>x \<in> set col. lo < x)"
    using assms by (simp add: Min_gr_iff)
  moreover have "Max (set col) < hi \<longleftrightarrow> (\<forall>x \<in> set col. x < hi)"
    using assms by (simp add: Max_less_iff)
  ultimately show ?thesis
    using assms by (auto simp: assert_bounds_def np_min_Min np_max_Max list_all_iff)
qed

lemma assertions_nonempty:
  assumes "rows coords \<noteq> []"
  shows "assertions coords df = None \<longleftrightarrow> preconditions coords df"
    and "assertions coords df = Some e \<Longrightarrow> \<exists>msg. e = AssertionError msg"
proof -
  have c: "column coords k \<noteq> []" for k using assms by (simp add: column_def)
  show "assertions coords df = None \<longleftrightarrow> preconditions coords df"
    by (auto simp: assertions_def preconditions_def nondecreasing_sorted
          assert_bounds_nonempty [OF c] split: option.splits)
  show "assertions coords df = Some e \<Longrightarrow> \<exists>msg. e = AssertionError msg"
    by (auto simp: assertions_def assert_bounds_nonempty [OF c] split: option.splits if_splits)
qed

lemma assertions_checked:
  assumes "rows coords \<noteq> [] \<or> \<not> is_haversine df"
  shows "assertions coords df = None \<longleftrightarrow> preconditions coords df"
    and "assertions coords df = Some e \<Longrightarrow> \<exists>msg. e = AssertionError msg"
proof -
  show "assertions coords df = None \<longleftrightarrow> preconditions coords df"
  proof (cases "rows coords = []")
    case False
    then show ?thesis by (rule assertions_nonempty(1))
  next
    case True
    then have "\<not> is_haversine df" using assms by simp
    then show ?thesis
      by (auto simp: assertions_def preconditions_def nondecreasing_sorted)
  qed
  show "assertions coords df = Some e \<Longrightarrow> \<exists>msg. e = AssertionError msg"
  proof (cases "rows coords = []")
    case False
    then show "assertions coords df = Some e \<Longrightarrow> ?thesis" by (rule assertions_nonempty(2))
  next
    case True
    then have "\<not> is_haversine df" using assms by simp
    then show "assertions coords df = Some e \<Longrightarrow> ?thesis"
      by (auto simp: assertions_def split: if_splits)
  qed
qed

text \<open>
  C6 (amended): for an input with at least one sample, and for any input when the metric
  is not the great-circle one, \<open>best_partition\<close> goes on to the preprocessing exactly
  when the preconditions hold, and otherwise raises an AssertionError, whatever the
  collaborators are. With a metric other than the great-circle one the preconditions are
  those on the columns and the timestamps alone.
\<close>

theorem precondition_checks:
  assumes "rows coords \<noteq> [] \<or> \<not> is_haversine df"
  shows "(preconditions coords df \<longrightarrow>
            (\<exists>X em. preprocess U coords r1 mst mtb df ms = (X, em) \<and>
               best_partition U coords r1 r2 rm ls mst mtb df ri ms =
                 run_infomap U r2 coords X df em ls rm ri mtb)) \<and>
         (\<not> preconditions coords df \<longrightarrow>
            (\<exists>msg. assertions coords df = Some (AssertionError msg) \<and>
               best_partition U coords r1 r2 rm ls mst mtb df ri ms = Inl (AssertionError msg))) \<and>
         (\<not> is_haversine df \<longrightarrow>
            preconditions coords df =
              ((shape1 coords = 2 \<or> shape1 coords = 3) \<and>
               (shape1 coords = 3 \<longrightarrow> sorted (column coords 2))))"
proof (intro conjI impI)
  assume "preconditions coords df"
  then have a: "assertions coords df = None" by (simp add: assertions_checked(1) [OF assms])
  obtain X em where p: "preprocess U coords r1 mst mtb df ms = (X, em)" by (cases "preprocess U coords r1 mst mtb df ms")
  show "\<exists>X em. preprocess U coords r1 mst mtb df ms = (X, em) \<and>
               best_partition U coords r1 r2 rm ls mst mtb df ri ms =
                 run_infomap U r2 coords X df em ls rm ri mtb"
    using best_partition_pre [OF a p] p by blast
next
  assume "\<not> preconditions coords df"
  then obtain e where e: "assertions coords df = Some e"
    using assertions_checked(1) [OF assms] by (cases "assertions coords df") auto
  then obtain msg where "e = AssertionError msg" using assertions_checked(2) [OF assms] by blast
  then show "\<exists>msg. assertions coords df = Some (AssertionError msg) \<and>
               best_partition U coords r1 r2 rm ls mst mtb df ri ms = Inl (AssertionError msg)"
    using e by (simp add: best_partition_def)
next
  assume "\<not> is_haversine df"
  then show "preconditions coords df =
              ((shape1 coords = 2 \<or> shape1 coords = 3) \<and>
               (shape1 coords = 3 \<longrightarrow> sorted (column coords 2)))"
    by (simp add: preconditions_def)
qed

theorem precondition_checks_witness:
  "(\<exists>msg. best_partition ex_utils out_of_range 10 20 False False 300 86400 Haversine False 2
            = Inl (AssertionError msg)) \<and>
   best_partition ex_utils out_of_range 10 20 False False 300 86400 Euclidean False 2
     = run_infomap ex_utils 20 out_of_range ex_events Euclidean ex_event_map False False False 86400 \<and>
   best_partition ex_utils no_samples 10 20 False False 300 86400 Euclidean False 2
     = run_infomap ex_utils 20 no_samples ex_events Euclidean ex_event_map False False False 86400"
proof -
  have r: "rows out_of_range \<noteq> [] \<or> \<not> is_haversine df" for df by code_simp
  have e: "rows no_samples \<noteq> [] \<or> \<not> is_haversine Euclidean" by code_simp
  have b: "\<not> preconditions out_of_range Haversine" by code_simp
  have g: "preconditions out_of_range Euclidean" by code_simp
  have n: "preconditions no_samples Euclidean" by code_simp
  have h: "\<not> is_haversine Euclidean" by code_simp
  have p: "preprocess ex_utils out_of_range 10 300 86400 Euclidean 2 = (ex_events, ex_event_map)"
    by (simp add: preprocess_def ex_utils_def)
  have q: "preprocess ex_utils no_samples 10 300 86400 Euclidean 2 = (ex_events, ex_event_map)"
    by (simp add: preprocess_def ex_utils_def)
  show ?thesis
    using precondition_checks [OF r, of Haversine ex_utils 10 300 86400 2 20 False False False]
      precondition_checks [OF r, of Euclidean ex_utils 10 300 86400 2 20 False False False]
      precondition_checks [OF e, of ex_utils 10 300 86400 2 20 False False False]
      b g n h p q
    by auto
qed

text \<open>
  For an array without rows the preconditions hold, no value being out of range, and with
  the great-circle metric line 66 raises the ValueError of \<open>np.min\<close> on a zero-size array.
\<close>

theorem empty_input_raises:
  "preconditions no_samples Haversine \<and>
   best_partition ex_utils no_samples 10 20 False False 300 86400 Haversine False 2 = Inl ValueError"
  by code_simp

section \<open>C10: the input array is left as it was\<close>

lemma run_infomap_st_heap:
  "take (length h) (snd (run_infomap_st U h r2 coords X df em ls rm ri mtb)) = h"
  by (simp add: run_infomap_st_def alloc_def Let_def split: sum.splits)

lemma run_infomap_st_result:
  "fst (run_infomap_st U h r2 coords X df em ls rm ri mtb) =
     run_infomap U r2 (h ! coords) X df em ls rm ri mtb"
  by (simp add: run_infomap_st_def run_infomap_def alloc_def Let_def split: sum.splits)

lemma best_partition_st_heap:
  "take (length h) (snd (best_partition_st U h coords r1 r2 rm ls mst mtb df ri ms)) = h"
  by (simp add: best_partition_st_def run_infomap_st_heap case_prod_unfold Let_def
        split: option.splits)

lemma best_partition_st_result:
  "fst (best_partition_st U h coords r1 r2 rm ls mst mtb df ri ms) =
     best_partition U (h ! coords) r1 r2 rm ls mst mtb df ri ms"
  by (simp add: best_partition_st_def best_partition_def run_infomap_st_result case_prod_unfold
        Let_def split: option.splits)

text \<open>
  C10: after a call of \<open>best_partition\<close>, on every path, every array that was in the
  store before the call holds the values it held, the caller's \<open>coords\<close> among them;
  the call only adds arrays. The value returned is that of the model without a store.
\<close>

theorem input_not_mutated:
  assumes "coords < length h"
  shows "snd (best_partition_st U h coords r1 r2 rm ls mst mtb df ri ms) ! coords = h ! coords \<and>
         take (length h) (snd (best_partition_st U h coords r1 r2 rm ls mst mtb df ri ms)) = h \<and>
         fst (best_partition_st U h coords r1 r2 rm ls mst mtb df ri ms) =
           best_partition U (h ! coords) r1 r2 rm ls mst mtb df ri ms"
proof -
  let ?h' = "snd (best_partition_st U h coords r1 r2 rm ls mst mtb df ri ms)"
  have t: "take (length h) ?h' = h" by (rule best_partition_st_heap)
  have "?h' ! coords = take (length h) ?h' ! coords" using assms by simp
  then have "?h' ! coords = h ! coords" by (simp only: t)
  then show ?thesis using t best_partition_st_result by blast
qed

theorem input_not_mutated_witness:
  "snd (best_partition_st ex_utils [ex_coords] 0 10 20 False True 300 86400 Euclidean True 2) ! 0
     = ex_coords \<and>
   length (snd (best_partition_st ex_utils [ex_coords] 0 10 20 False True 300 86400 Euclidean True 2))
     = 2"
proof -
  have l: "(0::nat) < length [ex_coords]" by simp
  have n: "length (snd (best_partition_st ex_utils [ex_coords] 0 10 20 False True 300 86400 Euclidean True 2)) = 2"
    by code_simp
  show ?thesis
    using input_not_mutated [OF l, of ex_utils 10 20 False True 300 86400 Euclidean True 2] n
    by simp
qed

section \<open>C9: determinism\<close>

lemma metric_other_run [simp]:
  "metric (U\<lparr>infomap_communities := orc, set_iteration := it\<rparr>) df = metric U df"
  by (simp add: metric_def fun_eq_iff split: distance_function.splits)

lemma preprocess_other_run [simp]:
  "preprocess (U\<lparr>infomap_communities := orc, set_iteration := it\<rparr>) coords r1 mst mtb df ms =
     preprocess U coords r1 mst mtb df ms"
  by (simp add: preprocess_def)






end
